theory Spec2Isabelle
  imports Main "HOL-Library.AList"
begin

section \<open>Strings\<close>

text \<open>
  JavaScript strings are modelled as \<^typ>\<open>string\<close>: lists of characters whose code
  units lie below 256. The helpers below are the string methods and the character
  classes of the regular expressions that \<^verbatim>\<open>index.ts\<close> uses.
\<close>

definition sq :: string where
  "sq = [CHR 0x27]"

definition dq :: string where
  "dq = [CHR 0x22]"

definition nl :: string where
  "nl = [CHR 0x0A]"

definition lowers :: string where
  "lowers = ''abcdefghijklmnopqrstuvwxyz''"

definition uppers :: string where
  "uppers = ''ABCDEFGHIJKLMNOPQRSTUVWXYZ''"

definition digits :: string where
  "digits = ''0123456789''"

definition isLower :: "char \<Rightarrow> bool" where
  \<comment> \<open>the class \<^verbatim>\<open>[a-z]\<close>\<close>
  "isLower c = (c \<in> set lowers)"

definition isAttrChar :: "char \<Rightarrow> bool" where
  \<comment> \<open>the class \<^verbatim>\<open>[a-z-]\<close>\<close>
  "isAttrChar c = (isLower c \<or> c = CHR ''-'')"

definition isWord :: "char \<Rightarrow> bool" where
  \<comment> \<open>the class \<^verbatim>\<open>\w\<close>\<close>
  "isWord c = (c \<in> set (lowers @ uppers @ digits @ ''_''))"

definition isWhite :: "char \<Rightarrow> bool" where
  \<comment> \<open>the class \<^verbatim>\<open>\s\<close>, which is also what \<^verbatim>\<open>trim\<close> removes\<close>
  "isWhite c = (c \<in> set [CHR 0x09, CHR 0x0A, CHR 0x0B, CHR 0x0C, CHR 0x0D, CHR 0x20, CHR 0xA0])"

definition isDot :: "char \<Rightarrow> bool" where
  \<comment> \<open>the class \<^verbatim>\<open>.\<close>: everything but a line terminator\<close>
  "isDot c = (c \<notin> set [CHR 0x0A, CHR 0x0D])"

definition isQuote :: "char \<Rightarrow> bool" where
  \<comment> \<open>the class \<^verbatim>\<open>["']\<close>\<close>
  "isQuote c = (c \<in> set [CHR 0x22, CHR 0x27])"

definition toUpperCase :: "char \<Rightarrow> char" where
  "toUpperCase c = (case map_of (zip lowers uppers) c of Some u \<Rightarrow> u | None \<Rightarrow> c)"

fun stripPrefix :: "string \<Rightarrow> string \<Rightarrow> string option" where
  "stripPrefix [] s = Some s"
| "stripPrefix (p # ps) [] = None"
| "stripPrefix (p # ps) (c # cs) = (if p = c then stripPrefix ps cs else None)"

definition endsWith :: "string \<Rightarrow> string \<Rightarrow> bool" where
  "endsWith s suf = (length suf \<le> length s \<and> drop (length s - length suf) s = suf)"

text \<open>
  \<^verbatim>\<open>s.replace(pat, rep)\<close> with a string pattern replaces the first occurrence of
  \<^verbatim>\<open>pat\<close> only. (No replacement used in the source contains a \<^verbatim>\<open>$\<close>.)
\<close>

fun replaceFirst :: "string \<Rightarrow> string \<Rightarrow> string \<Rightarrow> string" where
  "replaceFirst pat rep [] = (if pat = [] then rep else [])"
| "replaceFirst pat rep (c # cs) =
     (case stripPrefix pat (c # cs) of
        Some r \<Rightarrow> rep @ r
      | None \<Rightarrow> c # replaceFirst pat rep cs)"

definition trim :: "string \<Rightarrow> string" where
  "trim s = rev (dropWhile isWhite (rev (dropWhile isWhite s)))"

fun join :: "string \<Rightarrow> string list \<Rightarrow> string" where
  "join sep [] = []"
| "join sep [x] = x"
| "join sep (x # y # ys) = x @ sep @ join sep (y # ys)"

text \<open>
  \<^verbatim>\<open>attribute.replace(/-([a-z])/g, (g) => g[1]?.toUpperCase() ?? '')\<close>: every hyphen
  that is followed by a lower-case letter is dropped and the letter capitalised;
  the scan resumes after the letter.
\<close>

fun camelCase :: "string \<Rightarrow> string" where
  "camelCase (a # b # cs) =
     (if a = CHR ''-'' \<and> isLower b then toUpperCase b # camelCase cs
      else a # camelCase (b # cs))"
| "camelCase cs = cs"

text \<open>
  \<^verbatim>\<open>name.replace(/(?:^|-)([a-z])/g, (_, g) => g.toUpperCase())\<close>: as above, and a
  lower-case letter at the very start is capitalised as well.
\<close>

definition pascalCase :: "string \<Rightarrow> string" where
  "pascalCase s =
     (case s of
        [] \<Rightarrow> []
      | c # cs \<Rightarrow> if isLower c then toUpperCase c # camelCase cs else camelCase s)"

section \<open>Regular expressions\<close>

text \<open>
  \<^verbatim>\<open>matchAll\<close> with a global regular expression: the expression is tried at each
  position from left to right; after a match the scan resumes where the match ended
  (one character further after an empty match). A matcher returns the captured
  groups and the text after the match.
\<close>

function matchAll :: "(string \<Rightarrow> ('a \<times> string) option) \<Rightarrow> string \<Rightarrow> 'a list" where
  "matchAll m s =
     (case m s of
        Some (x, r) \<Rightarrow>
          x # (if length r < length s then matchAll m r
               else (case s of [] \<Rightarrow> [] | _ # cs \<Rightarrow> matchAll m cs))
      | None \<Rightarrow> (case s of [] \<Rightarrow> [] | _ # cs \<Rightarrow> matchAll m cs))"
  by pat_completeness auto
termination
  by (relation "measure (\<lambda>(m, s). length s)") auto

declare matchAll.simps [simp del]

text \<open>
  \<^verbatim>\<open>/\[data-(?<attribute>[a-z-]+)='(?<value>[^']*)'\]/g\<close>. Both repetitions are
  greedy and the character after each lies outside its class, so the longest run is
  the only candidate.
\<close>

definition matchEnumAt :: "string \<Rightarrow> ((string \<times> string) \<times> string) option" where
  "matchEnumAt s =
     (case stripPrefix ''[data-'' s of
        None \<Rightarrow> None
      | Some r1 \<Rightarrow>
          let attribute = takeWhile isAttrChar r1 in
          if attribute = [] then None
          else
            (case stripPrefix (''='' @ sq) (dropWhile isAttrChar r1) of
               None \<Rightarrow> None
             | Some r2 \<Rightarrow>
                 (case stripPrefix (sq @ '']'') (dropWhile (\<lambda>c. c \<noteq> CHR 0x27) r2) of
                    None \<Rightarrow> None
                  | Some r3 \<Rightarrow> Some ((attribute, takeWhile (\<lambda>c. c \<noteq> CHR 0x27) r2), r3))))"

definition enumMatches :: "string \<Rightarrow> (string \<times> string) list" where
  "enumMatches prop = matchAll matchEnumAt prop"

text \<open>
  \<^verbatim>\<open>/\[data-(?<attribute>[a-z-]+)(?=\])/g\<close>: the closing bracket is looked at
  but not consumed.
\<close>

definition matchBooleanAt :: "string \<Rightarrow> (string \<times> string) option" where
  "matchBooleanAt s =
     (case stripPrefix ''[data-'' s of
        None \<Rightarrow> None
      | Some r1 \<Rightarrow>
          let attribute = takeWhile isAttrChar r1; r2 = dropWhile isAttrChar r1 in
          if attribute \<noteq> [] \<and> stripPrefix '']'' r2 \<noteq> None then Some (attribute, r2)
          else None)"

definition booleanMatches :: "string \<Rightarrow> string list" where
  "booleanMatches prop = matchAll matchBooleanAt prop"

section \<open>Tree reducer\<close>

text \<open>
  A node of the tokenizer's tree: \<^verbatim>\<open>props\<close> is a string or an array of strings,
  \<^verbatim>\<open>children\<close> a string or an array of nodes.
\<close>

datatype props = PropsText string | PropsList "string list"

datatype element = Element (etype: string) (eprops: props) (echildren: children)
  and children = ChildrenText string | ChildrenList "element list"

record node =
  ntype :: string
  nprops :: "string list"

definition recognized :: "string \<Rightarrow> bool" where
  "recognized t = (t \<in> set [''@scope'', ''rule''])"

fun kept :: "string \<Rightarrow> props \<Rightarrow> node list" where
  "kept t (PropsList ps) = (if recognized t then [\<lparr>ntype = t, nprops = ps\<rparr>] else [])"
| "kept t (PropsText _) = []"

fun visit :: "element list \<Rightarrow> node list" where
  "visit [] = []"
| "visit (Element t p (ChildrenList cs) # ns) = kept t p @ visit cs @ visit ns"
| "visit (Element t p (ChildrenText _) # ns) = kept t p @ visit ns"

text \<open>The reducer as the specification words it: filter the pre-order listing.\<close>

fun preorder :: "element list \<Rightarrow> element list" where
  "preorder [] = []"
| "preorder (Element t p (ChildrenList cs) # ns) =
     Element t p (ChildrenList cs) # preorder cs @ preorder ns"
| "preorder (Element t p (ChildrenText s) # ns) =
     Element t p (ChildrenText s) # preorder ns"

fun propsList :: "props \<Rightarrow> string list option" where
  "propsList (PropsList ps) = Some ps"
| "propsList (PropsText _) = None"

definition toNode :: "element \<Rightarrow> node" where
  "toNode n = \<lparr>ntype = etype n, nprops = (case propsList (eprops n) of Some ps \<Rightarrow> ps | None \<Rightarrow> [])\<rparr>"

definition hasPropsArray :: "element \<Rightarrow> bool" where
  "hasPropsArray n = (recognized (etype n) \<and> propsList (eprops n) \<noteq> None)"

definition hasNonEmptyProps :: "element \<Rightarrow> bool" where
  "hasNonEmptyProps n =
     (recognized (etype n) \<and> propsList (eprops n) \<noteq> None \<and> propsList (eprops n) \<noteq> Some [])"

definition visit_spec :: "(element \<Rightarrow> bool) \<Rightarrow> element list \<Rightarrow> node list" where
  "visit_spec keep ns = map toNode (filter keep (preorder ns))"

section \<open>Component model builder\<close>

text \<open>
  An object is modelled by the list of its own properties in the order in which
  JavaScript enumerates them (\<^verbatim>\<open>Object.keys\<close>): first the keys that are array
  indices, in ascending numeric order, then the other keys in the order of their
  creation. Assigning to a present key keeps its place. A read that finds no own
  property goes on to \<^verbatim>\<open>Object.prototype\<close>, whose properties are all truthy and
  none an array.
\<close>

definition objectPrototype :: "string list" where
  "objectPrototype =
     [''constructor'', ''__defineGetter__'', ''__defineSetter__'', ''hasOwnProperty'',
      ''__lookupGetter__'', ''__lookupSetter__'', ''isPrototypeOf'', ''propertyIsEnumerable'',
      ''toString'', ''valueOf'', ''__proto__'', ''toLocaleString'']"

datatype 'v read = Own 'v | Inherited | Undefined

definition getProp :: "(string \<times> 'v) list \<Rightarrow> string \<Rightarrow> 'v read" where
  "getProp al k =
     (case map_of al k of
        Some v \<Rightarrow> Own v
      | None \<Rightarrow> if k \<in> set objectPrototype then Inherited else Undefined)"

definition digitValue :: "char \<Rightarrow> int" where
  "digitValue c =
     (case map_of (zip digits [0, 1, 2, 3, 4, 5, 6, 7, 8, 9]) c of Some n \<Rightarrow> n | None \<Rightarrow> 0)"

definition indexValue :: "string \<Rightarrow> int" where
  "indexValue s = foldl (\<lambda>n c. 10 * n + digitValue c) 0 s"

definition isArrayIndex :: "string \<Rightarrow> bool" where
  \<comment> \<open>a canonical decimal numeral below \<open>2^32 - 1\<close>\<close>
  "isArrayIndex s =
     (s \<noteq> [] \<and> list_all (\<lambda>c. c \<in> set digits) s \<and> (s = ''0'' \<or> hd s \<noteq> CHR ''0'')
      \<and> indexValue s \<le> 4294967294)"

fun insertIndex :: "string \<Rightarrow> 'v \<Rightarrow> (string \<times> 'v) list \<Rightarrow> (string \<times> 'v) list" where
  "insertIndex k v [] = [(k, v)]"
| "insertIndex k v (e # al) =
     (if isArrayIndex (fst e) \<and> indexValue (fst e) < indexValue k then e # insertIndex k v al
      else (k, v) # e # al)"

definition assign :: "string \<Rightarrow> 'v \<Rightarrow> (string \<times> 'v) list \<Rightarrow> (string \<times> 'v) list" where
  \<comment> \<open>\<^verbatim>\<open>obj[k] = v\<close> on an object without setters\<close>
  "assign k v al =
     (if k \<in> set (map fst al) then AList.update k v al
      else if isArrayIndex k then insertIndex k v al
      else al @ [(k, v)])"

text \<open>
  The only boolean that the builder stores is \<^verbatim>\<open>true\<close>, so \<open>Boolean\<close> carries
  no payload: every own value is truthy.
\<close>

datatype attributeSpec = Enum "string list" | Boolean

record component =
  tag :: string
  data :: "(string \<times> attributeSpec) list"

type_synonym components = "(string \<times> component) list"

datatype error = Error string | IOError

text \<open>
  The state of the pass: the cursor, the Components object by its own properties, and
  the prototype that the pass may have given it. Assigning to the key
  \<^verbatim>\<open>__proto__\<close> calls the setter of \<^verbatim>\<open>Object.prototype\<close>: it replaces the
  prototype and creates no own property, and reading that key returns the prototype.
  The cursor always names a key that the pass has assigned, so no other read of the
  Components object goes past its own properties.
\<close>

record state =
  name :: "string option"
  proto :: "component option"
  components :: components

definition getComponent :: "state \<Rightarrow> string \<Rightarrow> component option" where
  "getComponent st nm = (if nm = ''__proto__'' then proto st else map_of (components st) nm)"

definition putComponent :: "string \<Rightarrow> component \<Rightarrow> state \<Rightarrow> state" where
  "putComponent nm c st =
     (if nm = ''__proto__'' then st\<lparr>proto := Some c\<rparr>
      else st\<lparr>components := assign nm c (components st)\<rparr>)"

definition scopeName :: "string \<Rightarrow> string" where
  "scopeName prop = pascalCase (replaceFirst '')'' [] (replaceFirst ''(.'' [] prop))"

definition enumStep :: "(string \<times> attributeSpec) list \<Rightarrow> string \<times> string \<Rightarrow> (string \<times> attributeSpec) list" where
  "enumStep d m =
     (let camelCasedAttribute = camelCase (fst m);
          d1 = (case getProp d camelCasedAttribute of
                  Undefined \<Rightarrow> assign camelCasedAttribute (Enum []) d
                | _ \<Rightarrow> d)
      in case getProp d1 camelCasedAttribute of
           Own (Enum attr) \<Rightarrow>
             if snd m \<in> set attr then d1
             else assign camelCasedAttribute (Enum (attr @ [snd m])) d1
         | _ \<Rightarrow> d1)"

definition booleanStep :: "(string \<times> attributeSpec) list \<Rightarrow> string \<Rightarrow> (string \<times> attributeSpec) list" where
  "booleanStep d attribute =
     (case getProp d attribute of
        Undefined \<Rightarrow> assign attribute Boolean d
      | _ \<Rightarrow> d)"

definition enumScan :: "string \<Rightarrow> (string \<times> attributeSpec) list \<Rightarrow> (string \<times> attributeSpec) list" where
  "enumScan prop d = foldl enumStep d (enumMatches prop)"

definition booleanScan :: "string \<Rightarrow> (string \<times> attributeSpec) list \<Rightarrow> (string \<times> attributeSpec) list" where
  "booleanScan prop d = foldl booleanStep d (booleanMatches prop)"

text \<open>What a rule node does to the current component, given its selector text.\<close>

definition applyRule :: "string \<Rightarrow> component \<Rightarrow> component" where
  "applyRule prop c =
     (if endsWith prop '':scope'' then c\<lparr>tag := replaceFirst '':scope'' [] prop\<rparr>
      else c\<lparr>data := booleanScan prop (enumScan prop (data c))\<rparr>)"

definition step :: "state \<Rightarrow> node \<Rightarrow> error + state" where
  "step st n =
     (if ntype n = ''@scope'' then
        (case nprops n of
           [] \<Rightarrow> Inl (Error ''Invalid MistCSS file, no class found in @scope'')
         | prop # _ \<Rightarrow>
             let nm = scopeName prop
             in Inr (putComponent nm \<lparr>tag = [], data = []\<rparr> (st\<lparr>name := Some nm\<rparr>)))
      else if ntype n = ''rule'' then
        (case nprops n of
           [] \<Rightarrow> Inr st
         | prop # _ \<Rightarrow>
             (case name st of
                None \<Rightarrow> Inr st
              | Some nm \<Rightarrow>
                  (case getComponent st nm of
                     None \<Rightarrow> Inr st
                   | Some c \<Rightarrow> Inr (putComponent nm (applyRule prop c) st))))
      else Inr st)"

fun run :: "state \<Rightarrow> node list \<Rightarrow> error + state" where
  "run st [] = Inr st"
| "run st (n # ns) = (case step st n of Inl e \<Rightarrow> Inl e | Inr st' \<Rightarrow> run st' ns)"

definition init :: state where
  "init = \<lparr>name = None, proto = None, components = []\<rparr>"

definition builder :: "node list \<Rightarrow> error + components" where
  "builder nodes = (case run init nodes of Inl e \<Rightarrow> Inl e | Inr st \<Rightarrow> Inr (components st))"

text \<open>The tokenizer (\<^verbatim>\<open>compile\<close> of stylis) is external: a parameter.\<close>

definition parseInput :: "(string \<Rightarrow> element list) \<Rightarrow> string \<Rightarrow> error + components" where
  "parseInput compile input = builder (visit (compile input))"

section \<open>Code generator\<close>

definition renderProps :: "component \<Rightarrow> string" where
  "renderProps c =
     join nl
       (map (\<lambda>attribute.
               case map_of (data c) attribute of
                 Some (Enum values) \<Rightarrow>
                   attribute @ ''?: '' @ join '' | '' (map (\<lambda>v. sq @ v @ sq) values)
               | _ \<Rightarrow> ''  '' @ attribute @ ''?: boolean'')
          (map fst (data c)))"

definition componentTemplate :: "string \<Rightarrow> component \<Rightarrow> string" where
  \<comment> \<open>the template literal that \<^verbatim>\<open>renderComponent\<close> returns\<close>
  "componentTemplate nm c =
     ''type '' @ nm @ ''Props = {'' @ nl
     @ ''  children?: React.ReactNode'' @ nl
     @ ''  '' @ renderProps c @ nl
     @ ''} & JSX.IntrinsicElements['' @ sq @ tag c @ sq @ '']'' @ nl
     @ nl
     @ ''export function '' @ nm @ ''({ ''
     @ join '', '' ([''children''] @ map fst (data c) @ [''...props''])
     @ '' }: '' @ nm @ ''Props) {'' @ nl
     @ ''  return ('' @ nl
     @ ''    <''
     @ join '' '' ([tag c, ''{...props}'', ''className='' @ dq @ nm @ dq]
                   @ map (\<lambda>key. ''data-'' @ key @ ''={'' @ key @ ''}'') (map fst (data c)))
     @ ''>'' @ nl
     @ ''      {children}'' @ nl
     @ ''    </'' @ tag c @ ''>'' @ nl
     @ ''  )'' @ nl
     @ ''}'' @ nl"

definition renderComponent :: "components \<Rightarrow> string \<Rightarrow> string" where
  "renderComponent cs nm =
     (case map_of cs nm of
        None \<Rightarrow> []
      | Some c \<Rightarrow> componentTemplate nm c)"

definition render :: "string \<Rightarrow> components \<Rightarrow> string" where
  "render nm cs =
     ''// Generated by MistCSS, do not modify'' @ nl
     @ ''import '' @ sq @ ''./'' @ nm @ ''.mist.css'' @ sq @ nl
     @ nl
     @ trim (join nl (map (renderComponent cs) (map fst cs))) @ nl"

section \<open>File driver\<close>

text \<open>
  The file system is a map from paths to contents; reading a missing file fails.
  \<^verbatim>\<open>path.basename\<close> is a parameter, as the tokenizer is. The driver returns
  the file system it leaves behind and the error it threw, if any.
\<close>

type_synonym fs = "string \<rightharpoonup> string"

definition createFile ::
  "(string \<Rightarrow> element list) \<Rightarrow> (string \<Rightarrow> string \<Rightarrow> string) \<Rightarrow> fs \<Rightarrow> string \<Rightarrow> fs \<times> error option" where
  "createFile compile basename files filename =
     (case files filename of
        None \<Rightarrow> (files, Some IOError)
      | Some text \<Rightarrow>
          (case parseInput compile text of
             Inl e \<Rightarrow> (files, Some e)
           | Inr parsedInput \<Rightarrow>
               (files(replaceFirst ''.css'' ''.tsx'' filename
                        \<mapsto> render (basename filename ''.mist.css'') parsedInput),
                None)))"

section \<open>The single-component variant\<close>

text \<open>
  \<^verbatim>\<open>/(?<tag>\w+):scope/\<close>, executed once: the leftmost match.
\<close>

definition matchTagAt :: "string \<Rightarrow> string option" where
  "matchTagAt s =
     (let t = takeWhile isWord s
      in if t \<noteq> [] \<and> stripPrefix '':scope'' (dropWhile isWord s) \<noteq> None then Some t else None)"

fun tagExec :: "string \<Rightarrow> string option" where
  "tagExec [] = None"
| "tagExec (c # cs) =
     (case matchTagAt (c # cs) of Some t \<Rightarrow> Some t | None \<Rightarrow> tagExec cs)"

text \<open>
  \<^verbatim>\<open>/\[\s*data-(?<attribute>.*?)\s*=\s*["']?(?<value>.*?)["']?\s*\]/g\<close>. The two
  lazy groups take the shortest text after which the rest of the expression matches;
  each greedy part is followed by a character outside its class, or (the optional
  opening quote, the white space after the equals sign) succeeds at its longest
  choice whenever it succeeds at all, so the longest choice is taken.
\<close>

definition skipQuote :: "string \<Rightarrow> string" where
  "skipQuote s = (case s of [] \<Rightarrow> [] | c # cs \<Rightarrow> if isQuote c then cs else c # cs)"

definition closeAt :: "string \<Rightarrow> string option" where
  "closeAt s = stripPrefix '']'' (dropWhile isWhite (skipQuote s))"

fun lazyValue :: "string \<Rightarrow> (string \<times> string) option" where
  "lazyValue [] = None"
| "lazyValue (c # cs) =
     (case closeAt (c # cs) of
        Some r \<Rightarrow> Some ([], r)
      | None \<Rightarrow>
          if isDot c then map_option (\<lambda>(v, r). (c # v, r)) (lazyValue cs) else None)"

definition restAt :: "string \<Rightarrow> (string \<times> string) option" where
  "restAt s =
     (case stripPrefix ''='' (dropWhile isWhite s) of
        None \<Rightarrow> None
      | Some u \<Rightarrow> lazyValue (skipQuote (dropWhile isWhite u)))"

fun lazyAttribute :: "string \<Rightarrow> ((string \<times> string) \<times> string) option" where
  "lazyAttribute [] = None"
| "lazyAttribute (c # cs) =
     (case restAt (c # cs) of
        Some (v, r) \<Rightarrow> Some (([], v), r)
      | None \<Rightarrow>
          if isDot c then map_option (\<lambda>((a, v), r). ((c # a, v), r)) (lazyAttribute cs)
          else None)"

definition matchEnumAt_single :: "string \<Rightarrow> ((string \<times> string) \<times> string) option" where
  "matchEnumAt_single s =
     (case stripPrefix ''['' s of
        None \<Rightarrow> None
      | Some r1 \<Rightarrow>
          (case stripPrefix ''data-'' (dropWhile isWhite r1) of
             None \<Rightarrow> None
           | Some r2 \<Rightarrow> lazyAttribute r2))"

text \<open>\<^verbatim>\<open>/\[\s*data-(?<attribute>.\w*)\s*\]/g\<close>\<close>

definition matchBooleanAt_single :: "string \<Rightarrow> (string \<times> string) option" where
  "matchBooleanAt_single s =
     (case stripPrefix ''['' s of
        None \<Rightarrow> None
      | Some r1 \<Rightarrow>
          (case stripPrefix ''data-'' (dropWhile isWhite r1) of
             Some (c # cs) \<Rightarrow>
               if isDot c then
                 (case stripPrefix '']'' (dropWhile isWhite (dropWhile isWord cs)) of
                    None \<Rightarrow> None
                  | Some r \<Rightarrow> Some (c # takeWhile isWord cs, r))
               else None
           | _ \<Rightarrow> None))"

definition enumStep_single :: "(string \<times> attributeSpec) list \<Rightarrow> string \<times> string \<Rightarrow> (string \<times> attributeSpec) list" where
  "enumStep_single d m =
     (let d1 = (case getProp d (fst m) of
                  Undefined \<Rightarrow> assign (fst m) (Enum []) d
                | _ \<Rightarrow> d)
      in case getProp d1 (fst m) of
           Own (Enum attr) \<Rightarrow>
             if snd m \<in> set attr then d1
             else assign (fst m) (Enum (attr @ [snd m])) d1
         | _ \<Rightarrow> d1)"

definition parseInput_single :: "string \<Rightarrow> error + component" where
  "parseInput_single input =
     (case tagExec input of
        None \<Rightarrow> Inl (Error ''Could not parse tag'')
      | Some t \<Rightarrow>
          Inr \<lparr>tag = t,
               data = foldl booleanStep
                        (foldl enumStep_single [] (matchAll matchEnumAt_single input))
                        (matchAll matchBooleanAt_single input)\<rparr>)"

definition renderProps_single :: "component \<Rightarrow> string" where
  "renderProps_single c =
     join nl
       (map (\<lambda>attribute.
               case map_of (data c) attribute of
                 Some (Enum values) \<Rightarrow>
                   attribute @ '': '' @ join '' | '' (map (\<lambda>v. sq @ v @ sq) values)
               | _ \<Rightarrow> ''  '' @ attribute @ '': boolean'')
          (map fst (data c)))"

definition render_single :: "string \<Rightarrow> component \<Rightarrow> string" where
  "render_single nm c =
     ''// Generated by MistCSS, do not modify'' @ nl
     @ ''import '' @ sq @ ''./'' @ nm @ ''.mist.css'' @ sq @ nl
     @ nl
     @ ''type Props = {'' @ nl
     @ ''  children: React.ReactNode'' @ nl
     @ ''  '' @ renderProps_single c @ nl
     @ ''}'' @ nl
     @ nl
     @ ''export function '' @ nm @ ''({ children, '' @ join '', '' (map fst (data c))
     @ '', ...props }: Props) {'' @ nl
     @ ''  return ('' @ nl
     @ ''    <'' @ tag c @ '' {...props} ''
     @ join '' '' (map (\<lambda>key. ''data-'' @ key @ ''={'' @ key @ ''}'') (map fst (data c)))
     @ ''>'' @ nl
     @ ''      {children}'' @ nl
     @ ''    </'' @ tag c @ ''>'' @ nl
     @ ''  )'' @ nl
     @ ''}'' @ nl"

definition genFile :: "(string \<Rightarrow> string \<Rightarrow> string) \<Rightarrow> fs \<Rightarrow> string \<Rightarrow> fs \<times> error option" where
  "genFile basename files filename =
     (case files filename of
        None \<Rightarrow> (files, Some IOError)
      | Some text \<Rightarrow>
          (case parseInput_single text of
             Inl e \<Rightarrow> (files, Some e)
           | Inr parsedInput \<Rightarrow>
               (files(filename @ ''.tsx''
                        \<mapsto> render_single (basename filename ''.mist.css'') parsedInput),
                None)))"

section \<open>Predicates and examples used in the statements\<close>


definition forest :: "element list" where
  "forest =
     [Element ''@media'' (PropsText ''screen'')
        (ChildrenList
           [Element ''@scope'' (PropsList [''(.card)''])
              (ChildrenList
                 [Element ''rule'' (PropsList [''div:scope''])
                    (ChildrenList [Element ''decl'' (PropsText ''color'') (ChildrenText ''red'')])]),
            Element ''comm'' (PropsList [''x'']) (ChildrenText ''note'')]),
      Element ''rule'' (PropsList []) (ChildrenList [])]"

text \<open>First-seen order: every element once, at the place of its first occurrence.\<close>

fun firstSeen :: "'a list \<Rightarrow> 'a list" where
  "firstSeen [] = []"
| "firstSeen (x # xs) = x # removeAll x (firstSeen xs)"

definition valuesFor :: "string \<Rightarrow> (string \<times> string) list \<Rightarrow> string list" where
  \<comment> \<open>the values of the enum matchers whose attribute name converts to the key\<close>
  "valuesFor k ms = map snd (filter (\<lambda>m. camelCase (fst m) = k) ms)"

fun addValue :: "attributeSpec option \<Rightarrow> string \<Rightarrow> attributeSpec option" where
  "addValue None v = Some (Enum [v])"
| "addValue (Some (Enum vs)) v = Some (Enum (if v \<in> set vs then vs else vs @ [v]))"
| "addValue (Some Boolean) v = Some Boolean"

definition enumsDistinct :: "(string \<times> attributeSpec) list \<Rightarrow> bool" where
  "enumsDistinct d =
     list_all (\<lambda>e. case snd e of Enum vs \<Rightarrow> distinct vs | Boolean \<Rightarrow> True) d"

definition validName :: "string \<Rightarrow> bool" where
  \<comment> \<open>what \<^verbatim>\<open>[a-z-]+\<close> accepts\<close>
  "validName n = (n \<noteq> [] \<and> list_all isAttrChar n)"

definition bare :: "string \<Rightarrow> string" where
  "bare n = ''[data-'' @ n @ '']''"

definition allEnumsDistinct :: "components \<Rightarrow> bool" where
  "allEnumsDistinct cs = list_all (\<lambda>e. enumsDistinct (data (snd e))) cs"

text \<open>The names that the scope declarations of a node list declare, in order.\<close>

fun declared :: "node list \<Rightarrow> string list" where
  "declared [] = []"
| "declared (n # ns) =
     (if ntype n = ''@scope'' then (case nprops n of [] \<Rightarrow> [] | prop # _ \<Rightarrow> [scopeName prop])
      else [])
     @ declared ns"






definition capitalize :: "string \<Rightarrow> string" where
  "capitalize w = (case w of [] \<Rightarrow> [] | c # cs \<Rightarrow> toUpperCase c # cs)"

definition fresh :: component where
  "fresh = \<lparr>tag = [], data = []\<rparr>"



text \<open>A scope declaration without a first prop.\<close>

definition noClass :: "node \<Rightarrow> bool" where
  "noClass n = (ntype n = ''@scope'' \<and> nprops n = [])"

text \<open>
  A tag binding somewhere in a text, as the specification words it: a word character
  directly followed by \<^verbatim>\<open>:scope\<close>.
\<close>

fun hasTagBinding :: "string \<Rightarrow> bool" where
  "hasTagBinding [] = False"
| "hasTagBinding (c # cs) = ((isWord c \<and> stripPrefix '':scope'' cs \<noteq> None) \<or> hasTagBinding cs)"

text \<open>A field of the generated prop type, as the specification words it.\<close>

definition field :: "string \<times> attributeSpec \<Rightarrow> string" where
  "field e =
     (case snd e of
        Enum vs \<Rightarrow> fst e @ ''?: '' @ join '' | '' (map (\<lambda>v. sq @ v @ sq) vs)
      | Boolean \<Rightarrow> ''  '' @ fst e @ ''?: boolean'')"

definition wellKeyed :: "components \<Rightarrow> bool" where
  \<comment> \<open>an object has each key once\<close>
  "wellKeyed cs = (distinct (map fst cs) \<and> list_all (\<lambda>e. distinct (map fst (data (snd e)))) cs)"

definition card :: components where
  "card =
     [(''Card'', \<lparr>tag = ''button'', data = [(''size'', Enum [''sm'', ''lg'']), (''disabled'', Boolean)]\<rparr>)]"

definition cardText :: string where
  "cardText =
     ''// Generated by MistCSS, do not modify'' @ nl
     @ ''import '' @ sq @ ''./card.mist.css'' @ sq @ nl
     @ nl
     @ ''type CardProps = {'' @ nl
     @ ''  children?: React.ReactNode'' @ nl
     @ ''  size?: '' @ sq @ ''sm'' @ sq @ '' | '' @ sq @ ''lg'' @ sq @ nl
     @ ''  disabled?: boolean'' @ nl
     @ ''} & JSX.IntrinsicElements['' @ sq @ ''button'' @ sq @ '']'' @ nl
     @ nl
     @ ''export function Card({ children, size, disabled, ...props }: CardProps) {'' @ nl
     @ ''  return ('' @ nl
     @ ''    <button {...props} className='' @ dq @ ''Card'' @ dq
     @ '' data-size={size} data-disabled={disabled}>'' @ nl
     @ ''      {children}'' @ nl
     @ ''    </button>'' @ nl
     @ ''  )'' @ nl
     @ ''}'' @ nl"

definition noClassTree :: "string \<Rightarrow> element list" where
  "noClassTree text =
     [Element ''@scope'' (PropsList [])
        (ChildrenList [Element ''rule'' (PropsList [''div:scope'']) (ChildrenList [])])]"

definition disk :: fs where
  "disk = [''a.mist.css'' \<mapsto> ''@scope { div { } }'']"

section \<open>Basic facts\<close>

lemma stripPrefix_Some: "stripPrefix p s = Some r \<Longrightarrow> s = p @ r"
  by (induction p s rule: stripPrefix.induct) (auto split: if_splits)

subsection \<open>Assignment to a key\<close>

lemma update_append: "k \<notin> fst ` set al \<Longrightarrow> AList.update k v al = al @ [(k, v)]"
  by (induction al) auto

lemma map_of_snoc: "k \<notin> fst ` set al \<Longrightarrow> map_of (al @ [(k, v)]) = (map_of al)(k \<mapsto> v)"
  using update_append [of k al v] update_conv' [of k v al] by simp

lemma map_of_insertIndex:
  "k \<notin> fst ` set al \<Longrightarrow> map_of (insertIndex k v al) = (map_of al)(k \<mapsto> v)"
  by (induction al) (auto simp: fun_upd_twist)

lemma map_of_assign: "map_of (assign k v al) = (map_of al)(k \<mapsto> v)"
proof (cases "k \<in> fst ` set al")
  case True
  then show ?thesis by (simp add: assign_def update_conv')
next
  case False
  then show ?thesis
    using map_of_insertIndex [OF False, of v] map_of_snoc [OF False, of v]
    by (simp add: assign_def del: map_of_append)
qed

lemma set_insertIndex: "set (insertIndex k v al) = insert (k, v) (set al)"
  by (induction al) auto

lemma set_update_subset: "set (AList.update k v al) \<subseteq> insert (k, v) (set al)"
  by (induction al) auto

lemma set_assign_subset: "set (assign k v al) \<subseteq> insert (k, v) (set al)"
  using set_update_subset [of k v al] by (auto simp: assign_def set_insertIndex)

lemma keys_assign: "fst ` set (assign k v al) = insert k (fst ` set al)"
  by (auto simp: assign_def dom_update set_insertIndex)





lemma map_of_key: "map_of al k = Some v \<Longrightarrow> k \<in> fst ` set al"
  by (auto dest!: map_of_SomeD intro: rev_image_eqI)

lemma list_all_assign: "list_all P al \<Longrightarrow> P (k, v) \<Longrightarrow> list_all P (assign k v al)"
  using set_assign_subset [of k v al] by (auto simp: list_all_iff)

section \<open>Tree reducer: what \<open>visit\<close> returns\<close>

lemma kept_spec: "kept t p = map toNode (filter hasPropsArray [Element t p c])"
  by (cases p) (simp_all add: toNode_def hasPropsArray_def)

text \<open>
  C5 (as amended). For every node forest, \<open>visit\<close> returns, in pre-order (a node
  before its children, siblings left to right), exactly the type and props of the
  nodes whose type is \<^verbatim>\<open>@scope\<close> or \<^verbatim>\<open>rule\<close> and whose props is an array,
  empty or not; the listing descends into the children of every node, kept or not.
\<close>

theorem visit_preorder: "visit ns = visit_spec hasPropsArray ns"
  unfolding visit_spec_def
proof (induction ns rule: visit.induct)
  case 1
  show ?case by simp
next
  case (2 t p cs ns)
  then show ?case
    using kept_spec [of t p "ChildrenList cs"] by simp
next
  case (3 t p s ns)
  then show ?case
    using kept_spec [of t p "ChildrenText s"] by simp
qed

theorem visit_preorder_witness:
  "visit forest = visit_spec hasPropsArray forest \<and>
   visit forest =
     [\<lparr>ntype = ''@scope'', nprops = [''(.card)'']\<rparr>,
      \<lparr>ntype = ''rule'', nprops = [''div:scope'']\<rparr>,
      \<lparr>ntype = ''rule'', nprops = []\<rparr>]"
  using visit_preorder [of forest] by (simp add: forest_def recognized_def)

text \<open>
  C5 as stated asks for a non-empty props list. A rule node whose props is the empty
  array is kept all the same, where the stated filter would drop it.
\<close>

theorem visit_empty_props_kept:
  "visit [Element ''rule'' (PropsList []) (ChildrenList [])] = [\<lparr>ntype = ''rule'', nprops = []\<rparr>] \<and>
   visit_spec hasNonEmptyProps [Element ''rule'' (PropsList []) (ChildrenList [])] = []"
  by (simp add: visit_spec_def hasNonEmptyProps_def recognized_def)

section \<open>Builder: skipped rules and the cursor\<close>

text \<open>
  C8. A rule node met while no current component is set, or whose props is empty, is
  skipped: the step raises no error and returns the state unchanged, so the pass goes
  on as if the node were not there.
\<close>

theorem rule_skipped:
  assumes "ntype n = ''rule''" and "name st = None \<or> nprops n = []"
  shows "step st n = Inr st \<and> run st (n # ns) = run st ns"
  using assms by (auto simp: step_def split: list.splits option.splits)

theorem rule_skipped_witness:
  "step init \<lparr>ntype = ''rule'', nprops = [''[data-size]'']\<rparr> = Inr init \<and>
   builder [\<lparr>ntype = ''rule'', nprops = [''[data-size]'']\<rparr>] = Inr []"
  using rule_skipped [of "\<lparr>ntype = ''rule'', nprops = [''[data-size]'']\<rparr>" init "[]"]
  by (simp add: init_def builder_def)


lemma name_put [simp]: "name (putComponent nm c st) = name st"
  by (simp add: putComponent_def)





section \<open>Attribute scans\<close>

lemma set_firstSeen [simp]: "set (firstSeen xs) = set xs"
  by (induction xs) auto

lemma distinct_firstSeen [simp]: "distinct (firstSeen xs)"
  by (induction xs) (auto simp: distinct_removeAll)




lemma addValue_Some: "addValue x v \<noteq> None"
  by (cases "(x, v)" rule: addValue.cases) simp_all

lemma enumStep_lookup:
  "map_of (enumStep d m) k =
     (if k = camelCase (fst m) \<and> \<not> (map_of d k = None \<and> k \<in> set objectPrototype)
      then addValue (map_of d k) (snd m) else map_of d k)"
proof (cases "map_of d (camelCase (fst m))")
  case None
  then show ?thesis
    by (simp add: enumStep_def Let_def getProp_def map_of_assign)
next
  case (Some a)
  then show ?thesis
    by (cases a) (simp_all add: enumStep_def Let_def getProp_def map_of_assign)
qed

lemma enumFold_lookup:
  "map_of (foldl enumStep d ms) k =
     (if map_of d k = None \<and> k \<in> set objectPrototype then None
      else foldl addValue (map_of d k) (valuesFor k ms))"
proof (induction ms arbitrary: d)
  case Nil
  then show ?case by (simp add: valuesFor_def)
next
  case (Cons m ms)
  show ?case
    using addValue_Some [of "map_of d k" "snd m"]
    by (auto simp: Cons.IH enumStep_lookup valuesFor_def)
qed










lemma allEnumsDistinct_put:
  "allEnumsDistinct (components st) \<Longrightarrow> enumsDistinct (data c)
     \<Longrightarrow> allEnumsDistinct (components (putComponent nm c st))"
  by (simp add: putComponent_def allEnumsDistinct_def list_all_assign)





lemma booleanStep_lookup:
  "map_of (booleanStep d a) k =
     (case map_of d k of
        Some x \<Rightarrow> Some x
      | None \<Rightarrow> if k = a \<and> k \<notin> set objectPrototype then Some Boolean else None)"
  by (cases "map_of d a")
     (auto simp: booleanStep_def getProp_def map_of_assign split: option.splits)

lemma booleanFold_lookup:
  "map_of (foldl booleanStep d as) k =
     (case map_of d k of
        Some x \<Rightarrow> Some x
      | None \<Rightarrow> if k \<in> set as \<and> k \<notin> set objectPrototype then Some Boolean else None)"
proof (induction as arbitrary: d)
  case Nil
  then show ?case by (simp split: option.splits)
next
  case (Cons a as)
  show ?case
    by (auto simp: Cons.IH booleanStep_lookup split: option.splits)
qed

lemma not_attr_brackets [simp]:
  "\<not> isAttrChar CHR ''[''" "\<not> isAttrChar CHR '']''"
  by (simp_all add: isAttrChar_def isLower_def lowers_def)

lemma stripPrefix_append [simp]: "stripPrefix p (p @ r) = Some r"
  by (induction p) simp_all

lemma takeWhile_valid:
  "validName n \<Longrightarrow> \<not> isAttrChar c \<Longrightarrow> takeWhile isAttrChar (n @ c # r) = n"
  by (simp add: validName_def list_all_iff takeWhile_append2)

lemma dropWhile_valid:
  "validName n \<Longrightarrow> \<not> isAttrChar c \<Longrightarrow> dropWhile isAttrChar (n @ c # r) = c # r"
  by (simp add: validName_def list_all_iff dropWhile_append2)

lemma matchEnumAt_bare:
  assumes "validName n"
  shows "matchEnumAt (bare n @ post) = None"
proof -
  have s: "bare n @ post = ''[data-'' @ (n @ CHR '']'' # post)"
    by (simp add: bare_def)
  show ?thesis
    unfolding matchEnumAt_def s stripPrefix_append
    using takeWhile_valid [OF assms, of "CHR '']''" post]
          dropWhile_valid [OF assms, of "CHR '']''" post]
    by simp
qed

lemma matchBooleanAt_bare:
  assumes "validName n"
  shows "matchBooleanAt (bare n @ post) = Some (n, CHR '']'' # post)"
proof -
  have s: "bare n @ post = ''[data-'' @ (n @ CHR '']'' # post)"
    by (simp add: bare_def)
  show ?thesis
    unfolding matchBooleanAt_def s stripPrefix_append
    using takeWhile_valid [OF assms, of "CHR '']''" post]
          dropWhile_valid [OF assms, of "CHR '']''" post] assms
    by (simp add: validName_def)
qed

lemma stripPrefix_split:
  "stripPrefix p (xs @ ys) = Some r \<Longrightarrow>
     (\<exists>xs'. xs = p @ xs' \<and> r = xs' @ ys) \<or> (\<exists>p2. p2 \<noteq> [] \<and> p = xs @ p2 \<and> ys = p2 @ r)"
proof (induction p xs rule: stripPrefix.induct)
  case (1 s)
  then show ?case by simp
next
  case (2 p ps)
  then show ?case by (auto dest: stripPrefix_Some)
next
  case (3 p ps c cs)
  then show ?case by (auto split: if_splits)
qed

lemma matchBooleanAt_before:
  assumes "matchBooleanAt (pre @ CHR ''['' # rest) = Some (x, r)" and "pre \<noteq> []"
  shows "\<exists>p'. r = p' @ CHR ''['' # rest \<and> length p' < length pre"
proof -
  from assms(1) obtain r1 where r1: "stripPrefix ''[data-'' (pre @ CHR ''['' # rest) = Some r1"
    and r: "r = dropWhile isAttrChar r1"
    by (auto simp: matchBooleanAt_def Let_def split: option.splits if_splits)
  from stripPrefix_split [OF r1]
  consider xs' where "pre = ''[data-'' @ xs'" "r1 = xs' @ CHR ''['' # rest"
    | p2 where "p2 \<noteq> []" "''[data-'' = pre @ p2" "CHR ''['' # rest = p2 @ r1"
    by blast
  then show ?thesis
  proof cases
    case 1
    then have "r = dropWhile isAttrChar xs' @ CHR ''['' # rest"
      using r by (simp add: dropWhile_append3)
    moreover have "length (dropWhile isAttrChar xs') < length pre"
      using 1(1) length_dropWhile_le [of isAttrChar xs'] by simp
    ultimately show ?thesis by blast
  next
    case 2
    from 2(1,3) have "hd p2 = CHR ''[''" by (cases p2) auto
    moreover from 2(1,2) assms(2) have "hd p2 \<in> set ''data-''"
      by (cases pre; cases p2) (auto simp: Cons_eq_append_conv append_eq_Cons_conv)
    ultimately show ?thesis by simp
  qed
qed

lemma matchAll_None: "m (c # cs) = None \<Longrightarrow> matchAll m (c # cs) = matchAll m cs"
  by (subst matchAll.simps) simp

lemma matchAll_Some:
  "m s = Some (x, r) \<Longrightarrow> length r < length s \<Longrightarrow> matchAll m s = x # matchAll m r"
  by (subst matchAll.simps) simp

lemma bare_found:
  assumes "validName n"
  shows "n \<in> set (booleanMatches (pre @ bare n @ post))"
proof (induction pre rule: length_induct)
  case (1 pre)
  show ?case
  proof (cases pre)
    case Nil
    then show ?thesis
      using matchAll_Some [of matchBooleanAt "bare n @ post" n "CHR '']'' # post"]
            matchBooleanAt_bare [OF assms, of post]
      by (simp add: booleanMatches_def bare_def)
  next
    case (Cons c p)
    have b: "bare n @ post = CHR ''['' # (''data-'' @ n @ '']'' @ post)"
      by (simp add: bare_def)
    let ?s = "pre @ bare n @ post"
    show ?thesis
    proof (cases "matchBooleanAt ?s")
      case None
      then have "booleanMatches ?s = booleanMatches (p @ bare n @ post)"
        using Cons matchAll_None [of matchBooleanAt c "p @ bare n @ post"]
        by (simp add: booleanMatches_def)
      then show ?thesis using 1 Cons by simp
    next
      case (Some a)
      obtain x r where a: "a = (x, r)" by (cases a)
      from Some a Cons matchBooleanAt_before [of pre "''data-'' @ n @ '']'' @ post" x r]
      obtain p' where p': "r = p' @ bare n @ post" "length p' < length pre"
        by (auto simp: b)
      then have "length r < length ?s" by simp
      then have "booleanMatches ?s = x # booleanMatches (p' @ bare n @ post)"
        using Some a p'(1) matchAll_Some [of matchBooleanAt ?s x r]
        by (simp add: booleanMatches_def)
      then show ?thesis using 1 p'(2) by simp
    qed
  qed
qed




lemma applyRule_lookup:
  assumes "\<not> endsWith sel '':scope''"
  shows "map_of (data (applyRule sel c)) k =
           (case map_of (enumScan sel (data c)) k of
              Some x \<Rightarrow> Some x
            | None \<Rightarrow>
                if k \<in> set (booleanMatches sel) \<and> k \<notin> set objectPrototype then Some Boolean
                else None)"
  using assms by (simp add: applyRule_def booleanScan_def booleanFold_lookup)




text \<open>
  A name that \<^verbatim>\<open>Object.prototype\<close> defines is read as present, so neither scan
  stores anything under it.
\<close>

lemma prototype_names_not_stored:
  "builder [\<lparr>ntype = ''@scope'', nprops = [''(.card)'']\<rparr>,
            \<lparr>ntype = ''rule'', nprops = [''[data-to-string='x']'']\<rparr>,
            \<lparr>ntype = ''rule'', nprops = [''[data-constructor]'']\<rparr>]
     = Inr [(''Card'', \<lparr>tag = [], data = []\<rparr>)]"
  by code_simp

text \<open>
  C2 (as amended). The boolean scan changes an entry only where none exists, and then
  to Boolean: an existing entry, Enum or Boolean, is never overwritten, and the scan
  creates no Enum. A bare matcher \<^verbatim>\<open>[data-n]\<close> is no match of the enum expression
  whatever follows it, and the boolean scan finds it whatever stands before and after
  it in the selector. So when a rule node whose selector holds the bare matcher (and
  is no tag binding) is processed under a registered component, and \<^verbatim>\<open>n\<close> is no
  property of \<^verbatim>\<open>Object.prototype\<close>, the key \<^verbatim>\<open>n\<close> keeps the entry that it has after
  the enum scan of the selector and becomes Boolean if it has none; in particular it
  becomes Boolean when the component had no entry for it and no enum matcher of the
  selector converts to it.
\<close>

theorem boolean_scan_only_absent:
  "map_of (booleanScan sel d) k =
     (case map_of d k of
        Some x \<Rightarrow> Some x
      | None \<Rightarrow>
          if k \<in> set (booleanMatches sel) \<and> k \<notin> set objectPrototype then Some Boolean
          else None)
   \<and> (validName n \<longrightarrow>
        matchEnumAt (bare n @ post) = None
        \<and> n \<in> set (booleanMatches (pre @ bare n @ post)))
   \<and> (validName n \<and> n \<notin> set objectPrototype \<and> \<not> endsWith (pre @ bare n @ post) '':scope''
        \<and> name st = Some nm \<and> getComponent st nm = Some c \<longrightarrow>
        step st \<lparr>ntype = ''rule'', nprops = (pre @ bare n @ post) # ps\<rparr>
          = Inr (putComponent nm (applyRule (pre @ bare n @ post) c) st)
        \<and> map_of (data (applyRule (pre @ bare n @ post) c)) n
            = (case map_of (enumScan (pre @ bare n @ post) (data c)) n of
                 Some x \<Rightarrow> Some x
               | None \<Rightarrow> Some Boolean)
        \<and> (map_of (data c) n = None \<and> valuesFor n (enumMatches (pre @ bare n @ post)) = [] \<longrightarrow>
             map_of (data (applyRule (pre @ bare n @ post) c)) n = Some Boolean))"
proof (intro conjI impI)
  show "map_of (booleanScan sel d) k =
     (case map_of d k of
        Some x \<Rightarrow> Some x
      | None \<Rightarrow>
          if k \<in> set (booleanMatches sel) \<and> k \<notin> set objectPrototype then Some Boolean
          else None)"
    by (simp add: booleanScan_def booleanFold_lookup)
next
  assume "validName n"
  then show "matchEnumAt (bare n @ post) = None"
    and "n \<in> set (booleanMatches (pre @ bare n @ post))"
    by (simp_all add: matchEnumAt_bare bare_found)
next
  let ?sel = "pre @ bare n @ post"
  assume a: "validName n \<and> n \<notin> set objectPrototype \<and> \<not> endsWith ?sel '':scope''
        \<and> name st = Some nm \<and> getComponent st nm = Some c"
  then show "step st \<lparr>ntype = ''rule'', nprops = ?sel # ps\<rparr>
          = Inr (putComponent nm (applyRule ?sel c) st)"
    by (simp add: step_def)
  from a have found: "n \<in> set (booleanMatches ?sel)" by (simp add: bare_found)
  with a show l: "map_of (data (applyRule ?sel c)) n
            = (case map_of (enumScan ?sel (data c)) n of
                 Some x \<Rightarrow> Some x
               | None \<Rightarrow> Some Boolean)"
    by (simp add: applyRule_lookup)
  assume "map_of (data c) n = None \<and> valuesFor n (enumMatches ?sel) = []"
  then have "map_of (enumScan ?sel (data c)) n = None"
    by (simp add: enumScan_def enumFold_lookup)
  with l show "map_of (data (applyRule ?sel c)) n = Some Boolean" by simp
qed

theorem boolean_scan_only_absent_witness:
  "validName ''disabled'' \<and>
   matchEnumAt (bare ''disabled'' @ ''[data-size='sm']'') = None \<and>
   ''disabled'' \<in> set (booleanMatches (''[data-size='lg']'' @ bare ''disabled'' @ ''[data-size='sm']'')) \<and>
   map_of (booleanScan (''[data-size='lg'][data-size]'') [(''size'', Enum [''lg''])]) ''size''
     = Some (Enum [''lg'']) \<and>
   step \<lparr>name = Some ''Card'', proto = None, components = [(''Card'', \<lparr>tag = ''button'', data = []\<rparr>)]\<rparr>
        \<lparr>ntype = ''rule'', nprops = [''[data-size='lg']'' @ bare ''disabled'' @ ''[data-size='sm']'']\<rparr>
     = Inr \<lparr>name = Some ''Card'', proto = None,
            components = [(''Card'', \<lparr>tag = ''button'',
                                      data = [(''size'', Enum [''lg'', ''sm'']), (''disabled'', Boolean)]\<rparr>)]\<rparr> \<and>
   map_of (data (applyRule (''[data-size='lg']'' @ bare ''disabled'' @ ''[data-size='sm']'')
                   \<lparr>tag = ''button'', data = []\<rparr>)) ''disabled'' = Some Boolean"
proof -
  let ?pre = "''[data-size='lg']''"
  let ?post = "''[data-size='sm']''"
  let ?sel = "?pre @ bare ''disabled'' @ ?post"
  let ?c = "\<lparr>tag = ''button'', data = []\<rparr>"
  let ?st = "\<lparr>name = Some ''Card'', proto = None, components = [(''Card'', ?c)]\<rparr>"
  have h: "validName ''disabled''" by code_simp
  have p: "''disabled'' \<notin> set objectPrototype" by code_simp
  have e: "\<not> endsWith ?sel '':scope''" by code_simp
  have g: "name ?st = Some ''Card'' \<and> getComponent ?st ''Card'' = Some ?c" by code_simp
  have v: "map_of (data ?c) ''disabled'' = None \<and> valuesFor ''disabled'' (enumMatches ?sel) = []"
    by code_simp
  have r: "putComponent ''Card'' (applyRule ?sel ?c) ?st
      = \<lparr>name = Some ''Card'', proto = None,
         components = [(''Card'', \<lparr>tag = ''button'',
                                   data = [(''size'', Enum [''lg'', ''sm'']), (''disabled'', Boolean)]\<rparr>)]\<rparr>"
    by code_simp
  note t = boolean_scan_only_absent [of "''[data-size='lg'][data-size]''" "[(''size'', Enum [''lg''])]"
      "''size''" "''disabled''" ?post ?pre ?st "''Card''" ?c "[]"]
  from t have k: "map_of (booleanScan (''[data-size='lg'][data-size]'') [(''size'', Enum [''lg''])]) ''size''
      = Some (Enum [''lg''])"
    by simp
  from t h have m: "matchEnumAt (bare ''disabled'' @ ?post) = None"
    and f: "''disabled'' \<in> set (booleanMatches ?sel)"
    by blast+
  from t h p e g have s: "step ?st \<lparr>ntype = ''rule'', nprops = [?sel]\<rparr>
      = Inr (putComponent ''Card'' (applyRule ?sel ?c) ?st)"
    by blast
  from t h p e g v have b: "map_of (data (applyRule ?sel ?c)) ''disabled'' = Some Boolean"
    by blast
  from h m f k s r b show ?thesis by simp
qed

text \<open>
  C2 as stated has a bare matcher yield Boolean and never Enum for its attribute,
  wherever it stands in the selector. When the same selector holds an enum matcher for
  that name, the enum scan runs first and the attribute ends as an Enum.
\<close>

theorem bare_matcher_beside_enum_stays_enum:
  "builder [\<lparr>ntype = ''@scope'', nprops = [''(.card)'']\<rparr>,
            \<lparr>ntype = ''rule'', nprops = [''[data-size][data-size='sm']'']\<rparr>]
     = Inr [(''Card'', \<lparr>tag = [], data = [(''size'', Enum [''sm''])]\<rparr>)]"
  by code_simp

section \<open>Component names\<close>









lemma declared_append: "declared (ms @ ns) = declared ms @ declared ns"
  by (induction ms) simp_all



subsection \<open>Array indices among the keys\<close>












lemma capitalize_Cons [simp]: "capitalize (c # cs) = toUpperCase c # cs"
  by (simp add: capitalize_def)














section \<open>Code generator\<close>

lemma map_of_entry: "distinct (map fst al) \<Longrightarrow> e \<in> set al \<Longrightarrow> map_of al (fst e) = Some (snd e)"
  by (cases e) simp

lemma renderProps_fields:
  assumes "distinct (map fst (data c))"
  shows "renderProps c = join nl (map field (data c))"
proof -
  have "\<forall>e\<in>set (data c).
          (case map_of (data c) (fst e) of
             Some (Enum values) \<Rightarrow>
               fst e @ ''?: '' @ join '' | '' (map (\<lambda>v. sq @ v @ sq) values)
           | _ \<Rightarrow> ''  '' @ fst e @ ''?: boolean'') = field e"
    using map_of_entry [OF assms]
    by (auto simp: field_def split: attributeSpec.splits)
  then have "map (\<lambda>e. case map_of (data c) (fst e) of
                 Some (Enum values) \<Rightarrow>
                   fst e @ ''?: '' @ join '' | '' (map (\<lambda>v. sq @ v @ sq) values)
               | _ \<Rightarrow> ''  '' @ fst e @ ''?: boolean'') (data c) = map field (data c)"
    by (simp only: map_eq_conv)
  then show ?thesis by (simp only: renderProps_def map_map o_def)
qed

lemma renderComponent_entries:
  assumes "distinct (map fst cs)"
  shows "map (renderComponent cs) (map fst cs) = map (\<lambda>e. componentTemplate (fst e) (snd e)) cs"
proof -
  have "\<forall>e\<in>set cs. renderComponent cs (fst e) = componentTemplate (fst e) (snd e)"
    using map_of_entry [OF assms] by (simp add: renderComponent_def)
  then have "map (\<lambda>e. renderComponent cs (fst e)) cs = map (\<lambda>e. componentTemplate (fst e) (snd e)) cs"
    by (simp only: map_eq_conv)
  then show ?thesis by (simp add: o_def)
qed

lemma template_head: "\<exists>m. componentTemplate nm c = CHR ''t'' # m"
  by (simp add: componentTemplate_def)

lemma template_end: "\<exists>r. rev (componentTemplate nm c) = CHR 0x0A # CHR ''}'' # r"
  by (simp add: componentTemplate_def nl_def)

lemma join_head:
  "ts \<noteq> [] \<Longrightarrow> \<forall>t\<in>set ts. \<exists>m. t = a # m \<Longrightarrow> \<exists>m. join sep ts = a # m"
  by (induction sep ts rule: join.induct) auto

lemma join_end:
  "ts \<noteq> [] \<Longrightarrow> \<forall>t\<in>set ts. \<exists>r. rev t = a # b # r \<Longrightarrow> \<exists>r. rev (join sep ts) = a # b # r"
  by (induction sep ts rule: join.induct) auto

lemma trim_final_newline:
  assumes "s = a # m" and "\<not> isWhite a" and "rev s = CHR 0x0A # b # r" and "\<not> isWhite b"
  shows "trim s @ nl = s"
proof -
  have w: "isWhite (CHR 0x0A)" by (simp add: isWhite_def)
  have "trim s = rev (dropWhile isWhite (rev s))"
    using assms(1,2) by (simp add: trim_def)
  also have "\<dots> = rev (b # r)"
    using assms(3,4) w by simp
  finally have "trim s @ nl = rev (CHR 0x0A # b # r)"
    by (simp add: nl_def)
  then show ?thesis using assms(3) by (metis rev_rev_ident)
qed

lemma trim_templates:
  assumes "cs \<noteq> []"
  shows "trim (join nl (map (\<lambda>e. componentTemplate (fst e) (snd e)) cs)) @ nl
           = join nl (map (\<lambda>e. componentTemplate (fst e) (snd e)) cs)"
proof -
  let ?ts = "map (\<lambda>e. componentTemplate (fst e) (snd e)) cs"
  have ne: "?ts \<noteq> []" using assms by simp
  have "\<forall>t\<in>set ?ts. \<exists>m. t = CHR ''t'' # m" using template_head by auto
  from join_head [OF ne this] obtain m where m: "join nl ?ts = CHR ''t'' # m" by blast
  have "\<forall>t\<in>set ?ts. \<exists>r. rev t = CHR 0x0A # CHR ''}'' # r" using template_end by auto
  from join_end [OF ne this] obtain r where r: "rev (join nl ?ts) = CHR 0x0A # CHR ''}'' # r"
    by blast
  show ?thesis
    by (rule trim_final_newline [OF m _ r]) (simp_all add: isWhite_def)
qed

text \<open>
  C9. For every module name and every Components map (an object: each key once),
  \<open>render\<close> produces the banner comment line, the import of
  \<^verbatim>\<open>./<module-name>.mist.css\<close>, an empty line, and then the component definitions,
  one per map entry in the order of the entries, joined by newlines and trimmed,
  with a final newline. In each definition the prop type has one field per data
  entry: an Enum as \<^verbatim>\<open>name?:\<close> and the union of its single-quoted values in
  their order, a Boolean as \<^verbatim>\<open>name?: boolean\<close>. Trimming takes away
  nothing but the newline that ends the last definition.
\<close>

theorem render_layout:
  assumes "wellKeyed cs"
  shows "render nm cs =
           ''// Generated by MistCSS, do not modify'' @ nl
           @ ''import '' @ sq @ ''./'' @ nm @ ''.mist.css'' @ sq @ nl
           @ nl
           @ trim (join nl (map (\<lambda>e. componentTemplate (fst e) (snd e)) cs)) @ nl
         \<and> (\<forall>e\<in>set cs. renderProps (snd e) = join nl (map field (data (snd e))))
         \<and> (cs \<noteq> [] \<longrightarrow>
              render nm cs =
                ''// Generated by MistCSS, do not modify'' @ nl
                @ ''import '' @ sq @ ''./'' @ nm @ ''.mist.css'' @ sq @ nl
                @ nl
                @ join nl (map (\<lambda>e. componentTemplate (fst e) (snd e)) cs))"
proof -
  have r: "render nm cs =
           ''// Generated by MistCSS, do not modify'' @ nl
           @ ''import '' @ sq @ ''./'' @ nm @ ''.mist.css'' @ sq @ nl
           @ nl
           @ trim (join nl (map (\<lambda>e. componentTemplate (fst e) (snd e)) cs)) @ nl"
    using assms renderComponent_entries [of cs]
    by (simp add: wellKeyed_def render_def del: map_map)
  have f: "\<forall>e\<in>set cs. renderProps (snd e) = join nl (map field (data (snd e)))"
    using assms by (simp add: wellKeyed_def list_all_iff renderProps_fields)
  have t: "cs \<noteq> [] \<longrightarrow>
      render nm cs =
        ''// Generated by MistCSS, do not modify'' @ nl
        @ ''import '' @ sq @ ''./'' @ nm @ ''.mist.css'' @ sq @ nl
        @ nl
        @ join nl (map (\<lambda>e. componentTemplate (fst e) (snd e)) cs)"
  proof
    assume "cs \<noteq> []"
    then show "render nm cs =
        ''// Generated by MistCSS, do not modify'' @ nl
        @ ''import '' @ sq @ ''./'' @ nm @ ''.mist.css'' @ sq @ nl
        @ nl
        @ join nl (map (\<lambda>e. componentTemplate (fst e) (snd e)) cs)"
      using r trim_templates [of cs] by simp
  qed
  from r f t show ?thesis by blast
qed

theorem render_layout_witness:
  "wellKeyed card \<and> render ''card'' card = cardText
   \<and> renderProps (snd (hd card))
       = ''size?: '' @ sq @ ''sm'' @ sq @ '' | '' @ sq @ ''lg'' @ sq @ nl @ ''  disabled?: boolean''
   \<and> map field (data (snd (hd card)))
       = [''size?: '' @ sq @ ''sm'' @ sq @ '' | '' @ sq @ ''lg'' @ sq, ''  disabled?: boolean'']"
proof -
  have h: "wellKeyed card" by code_simp
  have e1: "''// Generated by MistCSS, do not modify'' @ nl
           @ ''import '' @ sq @ ''./'' @ ''card'' @ ''.mist.css'' @ sq @ nl
           @ nl
           @ trim (join nl (map (\<lambda>e. componentTemplate (fst e) (snd e)) card)) @ nl = cardText"
    by code_simp
  have e2: "map field (data (snd (hd card)))
       = [''size?: '' @ sq @ ''sm'' @ sq @ '' | '' @ sq @ ''lg'' @ sq, ''  disabled?: boolean'']"
    by code_simp
  have e3: "hd card \<in> set card" by (simp add: card_def)
  from render_layout [OF h, of "''card''"] e3
  have "render ''card'' card = ''// Generated by MistCSS, do not modify'' @ nl
           @ ''import '' @ sq @ ''./'' @ ''card'' @ ''.mist.css'' @ sq @ nl
           @ nl
           @ trim (join nl (map (\<lambda>e. componentTemplate (fst e) (snd e)) card)) @ nl"
    and "renderProps (snd (hd card)) = join nl (map field (data (snd (hd card))))"
    by blast+
  with h e1 e2 show ?thesis by simp
qed

section \<open>Parse failure\<close>

lemma step_fails:
  "step st n = (if noClass n then Inl (Error ''Invalid MistCSS file, no class found in @scope'')
                else Inr (case step st n of Inr st' \<Rightarrow> st' | Inl _ \<Rightarrow> st))"
  by (auto simp: step_def noClass_def Let_def split: list.splits option.splits)

lemma run_fails:
  "\<exists>n\<in>set ns. noClass n \<Longrightarrow>
     run st ns = Inl (Error ''Invalid MistCSS file, no class found in @scope'')"
proof (induction ns arbitrary: st)
  case Nil
  then show ?case by simp
next
  case (Cons n ns)
  show ?case
  proof (cases "noClass n")
    case True
    then show ?thesis using step_fails [of st n] by simp
  next
    case False
    with Cons.prems have "\<exists>n\<in>set ns. noClass n" by simp
    then show ?thesis
      using step_fails [of st n] False Cons.IH by (simp split: sum.splits)
  qed
qed

lemma run_succeeds: "\<not> (\<exists>n\<in>set ns. noClass n) \<Longrightarrow> \<exists>st'. run st ns = Inr st'"
proof (induction ns arbitrary: st)
  case Nil
  then show ?case by simp
next
  case (Cons n ns)
  then have "\<not> noClass n" and rest: "\<not> (\<exists>n\<in>set ns. noClass n)" by simp_all
  then obtain st1 where "step st n = Inr st1"
    using step_fails [of st n] by auto
  then show ?case using Cons.IH [OF rest, of st1] by simp
qed

lemma builder_outcome:
  "builder nodes =
     (if \<exists>n\<in>set nodes. noClass n
      then Inl (Error ''Invalid MistCSS file, no class found in @scope'')
      else Inr (case builder nodes of Inr cs \<Rightarrow> cs | Inl _ \<Rightarrow> []))"
proof (cases "\<exists>n\<in>set nodes. noClass n")
  case True
  then show ?thesis using run_fails [of nodes init] by (simp add: builder_def)
next
  case False
  then obtain st where "run init nodes = Inr st" using run_succeeds [of nodes init] by auto
  with False show ?thesis by (simp add: builder_def)
qed

lemma not_word_colon [simp]: "\<not> isWord CHR '':''"
  by (simp add: isWord_def lowers_def uppers_def digits_def)

lemma stripPrefix_scope_colon:
  "stripPrefix '':scope'' cs \<noteq> None \<Longrightarrow> takeWhile isWord cs = [] \<and> dropWhile isWord cs = cs"
  by (cases cs) (auto split: if_splits)

lemma hasTagBinding_run:
  "w \<noteq> [] \<Longrightarrow> list_all isWord w \<Longrightarrow> stripPrefix '':scope'' r \<noteq> None \<Longrightarrow> hasTagBinding (w @ r)"
proof (induction w)
  case Nil
  then show ?case by simp
next
  case (Cons c w)
  then show ?case by (cases w) auto
qed

lemma matchTagAt_binding: "matchTagAt s = Some t \<Longrightarrow> hasTagBinding s"
proof -
  assume "matchTagAt s = Some t"
  then have "takeWhile isWord s \<noteq> []" and "stripPrefix '':scope'' (dropWhile isWord s) \<noteq> None"
    by (auto simp: matchTagAt_def Let_def split: if_splits)
  moreover have "list_all isWord (takeWhile isWord s)"
    by (simp add: list_all_iff) (meson set_takeWhileD)
  ultimately have "hasTagBinding (takeWhile isWord s @ dropWhile isWord s)"
    by (intro hasTagBinding_run)
  then show ?thesis by simp
qed

lemma tagExec_binding: "(tagExec s \<noteq> None) = hasTagBinding s"
proof (induction s)
  case Nil
  then show ?case by simp
next
  case (Cons c cs)
  show ?case
  proof (cases "matchTagAt (c # cs)")
    case (Some t)
    then show ?thesis using matchTagAt_binding [OF Some] by simp
  next
    case None
    have "\<not> (isWord c \<and> stripPrefix '':scope'' cs \<noteq> None)"
    proof
      assume a: "isWord c \<and> stripPrefix '':scope'' cs \<noteq> None"
      then have "matchTagAt (c # cs) = Some [c]"
        using stripPrefix_scope_colon [of cs] by (simp add: matchTagAt_def)
      with None show False by simp
    qed
    with None Cons show ?thesis by auto
  qed
qed

lemma parseInput_single_outcome:
  "parseInput_single input =
     (if hasTagBinding input
      then Inr (case parseInput_single input of Inr c \<Rightarrow> c | Inl _ \<Rightarrow> fresh)
      else Inl (Error ''Could not parse tag''))"
  using tagExec_binding [of input]
  by (auto simp: parseInput_single_def split: option.splits)

text \<open>
  C7. The builder fails, with the one error it can throw, exactly when some scope
  declaration of the flattened list has no first prop; otherwise it returns a
  Components map. The single-component variant fails exactly when the text has no tag
  binding. When parsing fails, either driver hands the error on and leaves the file
  system as it was: nothing is written.
\<close>

theorem parse_failure:
  "((builder nodes = Inl (Error ''Invalid MistCSS file, no class found in @scope''))
      = (\<exists>n\<in>set nodes. noClass n))
   \<and> ((\<exists>cs. builder nodes = Inr cs) = (\<not> (\<exists>n\<in>set nodes. noClass n)))
   \<and> ((\<exists>e. parseInput compile input = Inl e) = (\<exists>n\<in>set (visit (compile input)). noClass n))
   \<and> ((parseInput_single input = Inl (Error ''Could not parse tag'')) = (\<not> hasTagBinding input))
   \<and> ((\<exists>c. parseInput_single input = Inr c) = hasTagBinding input)
   \<and> (files filename = Some input \<and> parseInput compile input = Inl e \<longrightarrow>
        createFile compile basename files filename = (files, Some e))
   \<and> (files filename = Some input \<and> parseInput_single input = Inl e \<longrightarrow>
        genFile basename files filename = (files, Some e))"
proof (intro conjI)
  show "(builder nodes = Inl (Error ''Invalid MistCSS file, no class found in @scope''))
      = (\<exists>n\<in>set nodes. noClass n)"
    using builder_outcome [of nodes] by (auto split: if_splits)
  show "(\<exists>cs. builder nodes = Inr cs) = (\<not> (\<exists>n\<in>set nodes. noClass n))"
    using builder_outcome [of nodes] by (auto split: if_splits)
  show "(\<exists>e. parseInput compile input = Inl e) = (\<exists>n\<in>set (visit (compile input)). noClass n)"
    using builder_outcome [of "visit (compile input)"]
    by (auto simp: parseInput_def split: if_splits)
  show "(parseInput_single input = Inl (Error ''Could not parse tag'')) = (\<not> hasTagBinding input)"
    using parseInput_single_outcome [of input] by (auto split: if_splits)
  show "(\<exists>c. parseInput_single input = Inr c) = hasTagBinding input"
    using parseInput_single_outcome [of input] by (auto split: if_splits)
  show "files filename = Some input \<and> parseInput compile input = Inl e \<longrightarrow>
        createFile compile basename files filename = (files, Some e)"
    by (simp add: createFile_def)
  show "files filename = Some input \<and> parseInput_single input = Inl e \<longrightarrow>
        genFile basename files filename = (files, Some e)"
    by (simp add: genFile_def)
qed

theorem parse_failure_witness:
  "builder (visit (noClassTree ''@scope { div { } }''))
     = Inl (Error ''Invalid MistCSS file, no class found in @scope'')
   \<and> createFile noClassTree (\<lambda>p ext. p) disk ''a.mist.css''
       = (disk, Some (Error ''Invalid MistCSS file, no class found in @scope''))
   \<and> \<not> hasTagBinding ''@scope { div { } }''
   \<and> genFile (\<lambda>p ext. p) disk ''a.mist.css'' = (disk, Some (Error ''Could not parse tag''))"
proof -
  let ?input = "''@scope { div { } }''"
  let ?scopeError = "Error ''Invalid MistCSS file, no class found in @scope''"
  let ?tagError = "Error ''Could not parse tag''"
  have f: "disk ''a.mist.css'' = Some ?input" by (simp add: disk_def)
  have h1: "\<exists>n\<in>set (visit (noClassTree ?input)). noClass n" by code_simp
  have h2: "\<not> hasTagBinding ?input" by code_simp
  note t = parse_failure [of "visit (noClassTree ?input)" noClassTree ?input disk "''a.mist.css''" _ "\<lambda>p ext. p"]
  from t [of ?scopeError] h1 have b: "builder (visit (noClassTree ?input)) = Inl ?scopeError"
    by blast
  then have p: "parseInput noClassTree ?input = Inl ?scopeError"
    by (simp add: parseInput_def)
  from t [of ?scopeError] f p
  have c: "createFile noClassTree (\<lambda>p ext. p) disk ''a.mist.css'' = (disk, Some ?scopeError)"
    by blast
  from t [of ?tagError] h2 have s: "parseInput_single ?input = Inl ?tagError"
    by blast
  from t [of ?tagError] f s
  have g: "genFile (\<lambda>p ext. p) disk ''a.mist.css'' = (disk, Some ?tagError)"
    by blast
  from b c h2 g show ?thesis by blast
qed


section \<open>Tag binding\<close>

text \<open>
  C6 asks that a selector ending in \<^verbatim>\<open>:scope\<close> set the tag to the selector without
  that suffix. The code removes the first occurrence of \<^verbatim>\<open>:scope\<close> instead: for
  the selector \<^verbatim>\<open>div:scope span:scope\<close> the tag becomes \<^verbatim>\<open>div span:scope\<close>, not
  \<^verbatim>\<open>div:scope span\<close>.
\<close>

theorem tag_first_occurrence_removed:
  "endsWith ''div:scope span:scope'' '':scope''
   \<and> builder [\<lparr>ntype = ''@scope'', nprops = [''(.card)'']\<rparr>,
              \<lparr>ntype = ''rule'', nprops = [''div:scope span:scope'']\<rparr>]
     = Inr [(''Card'', \<lparr>tag = ''div span:scope'', data = []\<rparr>)]"
  by code_simp

text \<open>
  Where the marker occurs once, at the end, the tag is the selector without it; and a
  selector that ends in the marker is never scanned for attributes.
\<close>

lemma endsWith_append [simp]: "endsWith (t @ suf) suf"
  by (simp add: endsWith_def)

lemma replaceFirst_suffix:
  "CHR '':'' \<notin> set t \<Longrightarrow> replaceFirst '':scope'' [] (t @ '':scope'') = t"
  by (induction t) auto

lemma tag_binding_rule:
  "CHR '':'' \<notin> set t \<Longrightarrow> applyRule (t @ '':scope'') c = c\<lparr>tag := t\<rparr>"
  by (simp add: applyRule_def replaceFirst_suffix)


lemma tag_rule_no_scan: "endsWith prop '':scope'' \<Longrightarrow> data (applyRule prop c) = data c"
  by (simp add: applyRule_def)

section \<open>Keys of the data map\<close>

text \<open>
  C3 asks that every stored key be the camelCase conversion of the matched attribute
  name, for Boolean entries as for Enum entries. The boolean scan stores the name as
  matched: under the scope \<^verbatim>\<open>card\<close> the rule \<^verbatim>\<open>[data-is-active]\<close> yields the key
  \<^verbatim>\<open>is-active\<close>, while the enum scan files the same name under \<^verbatim>\<open>isActive\<close>.
\<close>

theorem boolean_key_keeps_hyphen:
  "builder [\<lparr>ntype = ''@scope'', nprops = [''(.card)'']\<rparr>,
            \<lparr>ntype = ''rule'', nprops = [''[data-is-active]'']\<rparr>]
     = Inr [(''Card'', \<lparr>tag = [], data = [(''is-active'', Boolean)]\<rparr>)]
   \<and> builder [\<lparr>ntype = ''@scope'', nprops = [''(.card)'']\<rparr>,
              \<lparr>ntype = ''rule'', nprops = [''[data-is-active='yes']'']\<rparr>]
     = Inr [(''Card'', \<lparr>tag = [], data = [(''isActive'', Enum [''yes''])]\<rparr>)]
   \<and> camelCase ''is-active'' = ''isActive''"
  by code_simp

text \<open>The keys that the enum scan adds are the camelCase conversions.\<close>

lemma enumStep_keys:
  "fst ` set (enumStep d m) \<subseteq> insert (camelCase (fst m)) (fst ` set d)"
proof (cases "map_of d (camelCase (fst m))")
  case None
  then show ?thesis
    by (auto simp: enumStep_def Let_def getProp_def keys_assign map_of_assign)
next
  case (Some a)
  then have "camelCase (fst m) \<in> fst ` set d"
    using map_of_key [of d "camelCase (fst m)" a] by simp
  with Some show ?thesis
    by (cases a) (auto simp: enumStep_def Let_def getProp_def keys_assign)
qed

lemma enumScan_keys:
  "fst ` set (enumScan sel d) \<subseteq> fst ` set d \<union> camelCase ` fst ` set (enumMatches sel)"
proof -
  have "fst ` set (foldl enumStep d ms) \<subseteq> fst ` set d \<union> camelCase ` fst ` set ms" for ms
  proof (induction ms arbitrary: d)
    case Nil
    then show ?case by simp
  next
    case (Cons m ms)
    show ?case
      using Cons.IH [of "enumStep d m"] enumStep_keys [of d m] by auto
  qed
  then show ?thesis by (simp add: enumScan_def)
qed

section \<open>The end-to-end example\<close>

text \<open>
  The scope \<^verbatim>\<open>card\<close> with the rules \<^verbatim>\<open>button:scope\<close>, \<^verbatim>\<open>[data-size='sm']\<close>,
  \<^verbatim>\<open>[data-size='lg']\<close> and \<^verbatim>\<open>[data-disabled]\<close> yields the one component
  \<^verbatim>\<open>Card\<close>, and from it the text of the generated module. Within one selector the
  place of the bare matcher makes no difference.
\<close>

lemma end_to_end:
  "builder [\<lparr>ntype = ''@scope'', nprops = [''(.card)'']\<rparr>,
            \<lparr>ntype = ''rule'', nprops = [''button:scope'']\<rparr>,
            \<lparr>ntype = ''rule'', nprops = [''[data-size='sm']'']\<rparr>,
            \<lparr>ntype = ''rule'', nprops = [''[data-size='lg']'']\<rparr>,
            \<lparr>ntype = ''rule'', nprops = [''[data-disabled]'']\<rparr>] = Inr card
   \<and> render ''card'' card = cardText"
  by code_simp

lemma bare_matcher_either_side:
  "applyRule (''[data-disabled][data-size='sm']'') fresh
     = \<lparr>tag = [], data = [(''size'', Enum [''sm'']), (''disabled'', Boolean)]\<rparr>
   \<and> applyRule (''[data-size='sm'][data-disabled]'') fresh
     = \<lparr>tag = [], data = [(''size'', Enum [''sm'']), (''disabled'', Boolean)]\<rparr>"
  by code_simp

end
